theory Spec2Isabelle
  imports Main
begin

section \<open>Request descriptors\<close>

text \<open>
  The repository ships the same class \<open>MAxios\<close> twice: a JavaScript variant
  (index.js) and a TypeScript variant (index.ts). Both are embedded; every operation
  takes the variant as its first argument and differs only where the two sources differ
  (key derivation, the defaults, the timeout written on the last retry).
\<close>

datatype variant = JS | TS

text \<open>\<open>retryDelay\<close> is a number of milliseconds or a function of the attempt number.\<close>

datatype retry_delay = DelayMs int | DelayFn "int \<Rightarrow> int"

text \<open>
  The fields of a request configuration that the class reads or writes.
  \<open>methodName\<close> is the property \<open>method\<close>,
  \<open>retryCount\<close> is the property \<open>__retryCount\<close> (\<open>None\<close> while undefined);
  \<open>cancelToken\<close> is the axios cancel token attached by \<open>addReq\<close>, identified
  by a number. Numbers are integers. The callback \<open>duplicatedKey\<close> is called with
  the configuration and sees its fields (the descriptor); \<open>None\<close> stands for a value
  that is not a function (the default \<open>""\<close> of index.js, or undefined).
\<close>

record descriptor =
  methodName :: string
  url :: string
  cancelDuplicated :: bool
  retry :: int
  retryDelay :: retry_delay
  retryDelayRise :: bool
  timeout :: int
  cache :: bool
  retryCount :: "int option"
  cancelToken :: "nat option"

record config = descriptor +
  duplicatedKey :: "(descriptor \<Rightarrow> string) option"

text \<open>The argument of \<open>request\<close>: every field but the url may be left out.\<close>

record options =
  o_method :: "string option"
  o_url :: string
  o_cancelDuplicated :: "bool option"
  o_duplicatedKey :: "(descriptor \<Rightarrow> string) option"
  o_retry :: "int option"
  o_retryDelay :: "retry_delay option"
  o_retryDelayRise :: "bool option"
  o_timeout :: "int option"
  o_cache :: "bool option"
  o_retryCount :: "int option"

text \<open>The object handed to a cancel function: \<open>{type, message}\<close>.\<close>

datatype cancel_reason = CancelReason (reason_type: string) (reason_message: string)

text \<open>
  What the transport rejects with: an axios \<open>Cancel\<close>, whose \<open>message\<close> is the
  object given to the cancel function and which has no \<open>config\<close>, or an error with a
  message and, when axios attached one, the configuration of the failed call.
\<close>

datatype error = Cancel cancel_reason | AxiosError string "config option"

datatype response = Response (data: string) (resp_config: config)

section \<open>The singleton and its environment\<close>

text \<open>
  How the promise returned by \<open>request\<close> ended: resolved with a response, rejected
  with \<open>error.message\<close> (the cancel branch of the response interceptor), or rejected
  with the error itself.
\<close>

datatype outcome = Resolved response | RejectedMessage cancel_reason | RejectedError error

text \<open>
  Where a call of \<open>request\<close> stands. The promise chain of axios runs the request
  interceptor (\<open>Queued\<close> to \<open>Ready\<close>), then hands the configuration to the
  transport (\<open>InFlight\<close>), then runs the response interceptor, which settles the
  promise or starts the retry timer (\<open>Sleeping\<close>, with the delay).
\<close>

datatype stage =
    Queued config
  | Ready config
  | InFlight config
  | Sleeping int config
  | Settled outcome

text \<open>
  \<open>requestMap\<close> and \<open>responseCacheMap\<close> are the two maps of the class. The
  other fields are the environment: the reason of every cancel token that has been
  cancelled, the next fresh token, the configurations the transport was invoked with, in
  order, the delays of the retry timers that were started, in order, and the calls of
  \<open>request\<close>, numbered, with their stages.
\<close>

record world =
  requestMap :: "string \<rightharpoonup> nat"
  responseCacheMap :: "string \<rightharpoonup> response"
  tokenReason :: "nat \<rightharpoonup> cancel_reason"
  nextToken :: nat
  transportCalls :: "config list"
  timers :: "int list"
  requests :: "nat \<rightharpoonup> stage"
  nextRequest :: nat

definition initial :: world where
  "initial = \<lparr>requestMap = Map.empty, responseCacheMap = Map.empty, tokenReason = Map.empty,
     nextToken = 0, transportCalls = [], timers = [], requests = Map.empty, nextRequest = 0\<rparr>"

section \<open>Key derivation\<close>

text \<open>\<open>toLocaleLowerCase\<close> on the ASCII letters; other characters are kept.\<close>

definition lowerChar :: "char \<Rightarrow> char" where
  "lowerChar c =
     (case map_of (zip ''ABCDEFGHIJKLMNOPQRSTUVWXYZ'' ''abcdefghijklmnopqrstuvwxyz'') c of
        Some l \<Rightarrow> l
      | None \<Rightarrow> c)"

definition toLocaleLowerCase :: "string \<Rightarrow> string" where
  "toLocaleLowerCase s = map lowerChar s"

text \<open>The default key of both variants: the lower-cased method followed by the url.\<close>

definition defaultKey :: "descriptor \<Rightarrow> string" where
  "defaultKey d = toLocaleLowerCase (methodName d) @ url d"

text \<open>
  index.js: \<open>customKey\<close> is \<open>""\<close> unless \<open>duplicatedKey\<close> is a function;
  the result is \<open>customKey\<close> unless it is empty, and else the lower-cased
  \<open>methodName\<close> followed by the url.
\<close>

definition getDuplicatedKey_js :: "config \<Rightarrow> string" where
  "getDuplicatedKey_js c =
     (let customKey = (case duplicatedKey c of
                         Some f \<Rightarrow> f (descriptor.truncate c)
                       | None \<Rightarrow> '''')
      in if customKey \<noteq> '''' then customKey
         else toLocaleLowerCase (methodName c) @ url c)"

text \<open>
  index.ts: \<open>const { duplicatedKey = () => '' } = config; return duplicatedKey(config)\<close>.
\<close>

definition getDuplicatedKey_ts :: "config \<Rightarrow> string" where
  "getDuplicatedKey_ts c =
     (case duplicatedKey c of
        Some f \<Rightarrow> f (descriptor.truncate c)
      | None \<Rightarrow> '''')"

definition getDuplicatedKey :: "variant \<Rightarrow> config \<Rightarrow> string" where
  "getDuplicatedKey v c = (case v of JS \<Rightarrow> getDuplicatedKey_js c | TS \<Rightarrow> getDuplicatedKey_ts c)"

section \<open>The pending-request registry\<close>

definition ERROR_TYPE_Cancel :: string where
  "ERROR_TYPE_Cancel = ''cancelDuplicated''"

text \<open>
  The cancel function of an axios token: the first call records its reason in the
  token, later calls do nothing.
\<close>

definition cancel :: "nat \<Rightarrow> cancel_reason \<Rightarrow> world \<Rightarrow> world" where
  "cancel t r w =
     (case tokenReason w t of
        Some _ \<Rightarrow> w
      | None \<Rightarrow> w\<lparr>tokenReason := (tokenReason w)(t \<mapsto> r)\<rparr>)"

text \<open>
  \<open>addReq\<close>: nothing without \<open>cancelDuplicated\<close>; otherwise, when the key has no
  entry, a new token is made for the configuration and its cancel function is stored
  under the key. The configuration is mutated, so it is returned.
\<close>

definition addReq :: "variant \<Rightarrow> world \<Rightarrow> config \<Rightarrow> world \<times> config" where
  "addReq v w c =
     (if \<not> cancelDuplicated c then (w, c)
      else let key = getDuplicatedKey v c in
        if requestMap w key = None
        then (w\<lparr>requestMap := (requestMap w)(key \<mapsto> nextToken w),
                 nextToken := Suc (nextToken w)\<rparr>,
              c\<lparr>cancelToken := Some (nextToken w)\<rparr>)
        else (w, c))"

text \<open>
  \<open>removeReq\<close>: nothing without \<open>cancelDuplicated\<close> or without an entry;
  otherwise the entry is deleted and its cancel function is called with
  \<open>{type: ERROR_TYPE.Cancel, message: "Request canceled "}\<close>. The \<open>try\<close> of the
  source catches what key derivation throws on a configuration without a method; the
  configurations here all have one.
\<close>

definition removeReq :: "variant \<Rightarrow> world \<Rightarrow> config \<Rightarrow> world" where
  "removeReq v w c =
     (let key = getDuplicatedKey v c in
      if \<not> cancelDuplicated c then w
      else case requestMap w key of
             None \<Rightarrow> w
           | Some t \<Rightarrow>
               cancel t (CancelReason ERROR_TYPE_Cancel ''Request canceled '')
                 (w\<lparr>requestMap := (requestMap w)(key := None)\<rparr>))"

section \<open>The response cache\<close>

definition getResponseCache :: "variant \<Rightarrow> world \<Rightarrow> config \<Rightarrow> response option" where
  "getResponseCache v w c = responseCacheMap w (getDuplicatedKey v c)"

definition setResponseCache :: "variant \<Rightarrow> world \<Rightarrow> config \<Rightarrow> response \<Rightarrow> world" where
  "setResponseCache v w c r =
     (if \<not> cache c then w
      else w\<lparr>responseCacheMap := (responseCacheMap w)(getDuplicatedKey v c \<mapsto> r)\<rparr>)"

section \<open>The retry scheduler\<close>

text \<open>
  What a rejected response leads to: \<open>Promise.reject(error.message)\<close>,
  \<open>Promise.reject(error)\<close>, or a timer of the given delay after which
  \<open>instance.request(config)\<close> is called again.
\<close>

datatype action = RejectMessage cancel_reason | Reject error | Reissue int config

text \<open>
  \<open>retry\<close> receives \<open>error.config\<close> as \<open>config\<close>: the two are one object,
  so the counter written into the configuration is also seen through the error.
\<close>

fun withConfig :: "error \<Rightarrow> config \<Rightarrow> error" where
  "withConfig (AxiosError m _) c = AxiosError m (Some c)"
| "withConfig (Cancel r) c = Cancel r"

definition counter :: "config \<Rightarrow> int" where
  "counter c = (case retryCount c of None \<Rightarrow> 0 | Some n \<Rightarrow> n)"

text \<open>
  The delay of index.js, \<open>isFunction(retryDelay) ? retryDelay(retryCount) :
  retryDelay * (retryDelayRise ? retryCount : 1)\<close>; index.ts tests
  \<open>typeof retryDelay === 'number'\<close> first and computes the same.
\<close>

definition delayOf :: "config \<Rightarrow> int \<Rightarrow> int" where
  "delayOf c n =
     (case retryDelay c of
        DelayFn f \<Rightarrow> f n
      | DelayMs d \<Rightarrow> d * (if retryDelayRise c then n else 1))"

definition MAxios_retry :: "variant \<Rightarrow> config \<Rightarrow> error \<Rightarrow> action" where
  "MAxios_retry v c e =
     (let n = counter c;
          c0 = c\<lparr>retryCount := Some n\<rparr>
      in if n \<ge> retry c then Reject (withConfig e c0)
         else
           let n1 = n + 1;
               c1 = c0\<lparr>retryCount := Some n1\<rparr>;
               c2 = (if v = JS \<and> n1 = retry c then c1\<lparr>timeout := 15000\<rparr> else c1)
           in Reissue (delayOf c n1) c2)"

section \<open>The interceptors\<close>

definition interceptorsRequest :: "variant \<Rightarrow> world \<Rightarrow> config \<Rightarrow> world \<times> config" where
  "interceptorsRequest v w c = addReq v (removeReq v w c) c"

definition onFulfilled :: "variant \<Rightarrow> world \<Rightarrow> response \<Rightarrow> world" where
  "onFulfilled v w r = setResponseCache v (removeReq v w (resp_config r)) (resp_config r) r"

text \<open>\<open>error.config\<close>, and \<open>axios.isCancel(error)\<close> with \<open>error.message\<close>.\<close>

fun errorConfig :: "error \<Rightarrow> config option" where
  "errorConfig (Cancel r) = None"
| "errorConfig (AxiosError m c) = c"

fun cancelMessage :: "error \<Rightarrow> cancel_reason option" where
  "cancelMessage (Cancel r) = Some r"
| "cancelMessage (AxiosError m c) = None"

text \<open>
  The rejection handler: \<open>removeReq\<close> on \<open>error.config || {}\<close>, then the cancel
  branch, then the retry. On \<open>{}\<close>, \<open>removeReq\<close> changes nothing (index.js
  throws on the undefined method inside its \<open>try\<close>, index.ts leaves on the undefined
  flag) and \<open>{}.retry > 0\<close> is false.
\<close>

definition onRejected :: "variant \<Rightarrow> world \<Rightarrow> error \<Rightarrow> world \<times> action" where
  "onRejected v w e =
     (let w1 = (case errorConfig e of None \<Rightarrow> w | Some c \<Rightarrow> removeReq v w c)
      in case cancelMessage e of
           Some message \<Rightarrow> (w1, RejectMessage message)
         | None \<Rightarrow>
             (case errorConfig e of
                Some c \<Rightarrow> if retry c > 0 then (w1, MAxios_retry v c e) else (w1, Reject e)
              | None \<Rightarrow> (w1, Reject e)))"

section \<open>The public entry point\<close>

text \<open>
  \<open>Object.assign({}, defaultConfig, options)\<close> with the defaults of each variant.
  index.ts sets no timeout; 0 is the default of axios.
\<close>

definition defaultConfig :: "variant \<Rightarrow> config" where
  "defaultConfig v =
     (case v of
        JS \<Rightarrow> \<lparr>methodName = ''GET'', url = '''', cancelDuplicated = False, retry = 0,
                retryDelay = DelayMs 200, retryDelayRise = True, timeout = -1, cache = False,
                retryCount = None, cancelToken = None, duplicatedKey = None\<rparr>
      | TS \<Rightarrow> \<lparr>methodName = ''get'', url = '''', cancelDuplicated = False, retry = 0,
                retryDelay = DelayMs 200, retryDelayRise = True, timeout = 0, cache = False,
                retryCount = None, cancelToken = None, duplicatedKey = Some defaultKey\<rparr>)"

definition assign :: "config \<Rightarrow> options \<Rightarrow> config" where
  "assign d opts =
     \<lparr>methodName = (case o_method opts of Some x \<Rightarrow> x | None \<Rightarrow> methodName d),
      url = o_url opts,
      cancelDuplicated = (case o_cancelDuplicated opts of Some x \<Rightarrow> x | None \<Rightarrow> cancelDuplicated d),
      retry = (case o_retry opts of Some x \<Rightarrow> x | None \<Rightarrow> retry d),
      retryDelay = (case o_retryDelay opts of Some x \<Rightarrow> x | None \<Rightarrow> retryDelay d),
      retryDelayRise = (case o_retryDelayRise opts of Some x \<Rightarrow> x | None \<Rightarrow> retryDelayRise d),
      timeout = (case o_timeout opts of Some x \<Rightarrow> x | None \<Rightarrow> timeout d),
      cache = (case o_cache opts of Some x \<Rightarrow> x | None \<Rightarrow> cache d),
      retryCount = (case o_retryCount opts of Some x \<Rightarrow> Some x | None \<Rightarrow> retryCount d),
      cancelToken = cancelToken d,
      duplicatedKey = (case o_duplicatedKey opts of Some f \<Rightarrow> Some f | None \<Rightarrow> duplicatedKey d)\<rparr>"

text \<open>
  \<open>request\<close>: the call gets the next number; on a cache hit its promise is resolved
  at once, otherwise \<open>instance.request(config)\<close> queues the configuration for the
  interceptors of a new instance.
\<close>

definition request :: "variant \<Rightarrow> world \<Rightarrow> options \<Rightarrow> world" where
  "request v w opts =
     (let c = assign (defaultConfig v) opts;
          rid = nextRequest w;
          w1 = w\<lparr>nextRequest := Suc rid\<rparr>
      in case (if cache c then getResponseCache v w c else None) of
           Some responseCache \<Rightarrow>
             w1\<lparr>requests := (requests w1)(rid \<mapsto> Settled (Resolved responseCache))\<rparr>
         | None \<Rightarrow> w1\<lparr>requests := (requests w1)(rid \<mapsto> Queued c)\<rparr>)"

section \<open>The promise chain of one call\<close>

text \<open>
  axios is not part of the repository. The steps below are what the class relies on:
  \<open>instance.request(config)\<close> runs the request interceptor, then dispatches (a
  configuration whose token is cancelled is rejected with the \<open>Cancel\<close> of the
  token, any other is handed to the transport), then runs one handler of the response
  interceptor on the response or on the error, whose \<open>config\<close> is the configuration
  that was dispatched; a token cancelled while its call is in flight makes the transport
  reject with the \<open>Cancel\<close>. The fields of a configuration are passed on as they
  are (axios itself lower-cases the method, which the default key does not see). Each
  step is one turn of the event loop; the steps of different calls may interleave in any
  order.

  A token is cancelled once it has a reason.
\<close>

definition cancelledWith :: "world \<Rightarrow> config \<Rightarrow> cancel_reason option" where
  "cancelledWith w c = (case cancelToken c of None \<Rightarrow> None | Some t \<Rightarrow> tokenReason w t)"

text \<open>The response interceptor runs on what the transport gave; the call settles or sleeps.\<close>

definition deliver :: "variant \<Rightarrow> world \<Rightarrow> nat \<Rightarrow> error + response \<Rightarrow> world" where
  "deliver v w rid res =
     (case res of
        Inr r \<Rightarrow>
          (let w1 = onFulfilled v w r
           in w1\<lparr>requests := (requests w1)(rid \<mapsto> Settled (Resolved r))\<rparr>)
      | Inl e \<Rightarrow>
          (case onRejected v w e of
             (w1, RejectMessage m) \<Rightarrow>
               w1\<lparr>requests := (requests w1)(rid \<mapsto> Settled (RejectedMessage m))\<rparr>
           | (w1, Reject e') \<Rightarrow>
               w1\<lparr>requests := (requests w1)(rid \<mapsto> Settled (RejectedError e'))\<rparr>
           | (w1, Reissue d c) \<Rightarrow>
               w1\<lparr>timers := timers w1 @ [d],
                  requests := (requests w1)(rid \<mapsto> Sleeping d c)\<rparr>))"

text \<open>The request interceptor of a queued call.\<close>

definition intercept :: "variant \<Rightarrow> world \<Rightarrow> nat \<Rightarrow> world" where
  "intercept v w rid =
     (case requests w rid of
        Some (Queued c) \<Rightarrow>
          (case interceptorsRequest v w c of
             (w1, c1) \<Rightarrow> w1\<lparr>requests := (requests w1)(rid \<mapsto> Ready c1)\<rparr>)
      | _ \<Rightarrow> w)"

text \<open>
  axios dispatches: a configuration whose token is already cancelled is rejected with
  that \<open>Cancel\<close> before the transport is touched; otherwise the transport is invoked.
\<close>

definition dispatch :: "variant \<Rightarrow> world \<Rightarrow> nat \<Rightarrow> world" where
  "dispatch v w rid =
     (case requests w rid of
        Some (Ready c) \<Rightarrow>
          (case cancelledWith w c of
             Some r \<Rightarrow> deliver v w rid (Inl (Cancel r))
           | None \<Rightarrow> w\<lparr>transportCalls := transportCalls w @ [c],
                        requests := (requests w)(rid \<mapsto> InFlight c)\<rparr>)
      | _ \<Rightarrow> w)"

text \<open>
  The transport answers a call in flight whose token is not cancelled: \<open>Inl\<close> a
  failure message, \<open>Inr\<close> the data of the response.
\<close>

definition respond :: "variant \<Rightarrow> world \<Rightarrow> nat \<Rightarrow> string + string \<Rightarrow> world" where
  "respond v w rid res =
     (case requests w rid of
        Some (InFlight c) \<Rightarrow>
          (case cancelledWith w c of
             Some r \<Rightarrow> w
           | None \<Rightarrow>
               deliver v w rid
                 (case res of
                    Inl m \<Rightarrow> Inl (AxiosError m (Some c))
                  | Inr d \<Rightarrow> Inr (Response d c)))
      | _ \<Rightarrow> w)"

text \<open>The transport sees the cancelled token of a call in flight and rejects with it.\<close>

definition abort :: "variant \<Rightarrow> world \<Rightarrow> nat \<Rightarrow> world" where
  "abort v w rid =
     (case requests w rid of
        Some (InFlight c) \<Rightarrow>
          (case cancelledWith w c of
             Some r \<Rightarrow> deliver v w rid (Inl (Cancel r))
           | None \<Rightarrow> w)
      | _ \<Rightarrow> w)"

text \<open>The retry timer ends: \<open>instance.request(config)\<close> on the same instance.\<close>

definition fire :: "world \<Rightarrow> nat \<Rightarrow> world" where
  "fire w rid =
     (case requests w rid of
        Some (Sleeping d c) \<Rightarrow> w\<lparr>requests := (requests w)(rid \<mapsto> Queued c)\<rparr>
      | _ \<Rightarrow> w)"

datatype event =
    Call options
  | Intercept nat
  | Dispatch nat
  | Respond nat "string + string"
  | Abort nat
  | Fire nat

fun step :: "variant \<Rightarrow> world \<Rightarrow> event \<Rightarrow> world" where
  "step v w (Call opts) = request v w opts"
| "step v w (Intercept rid) = intercept v w rid"
| "step v w (Dispatch rid) = dispatch v w rid"
| "step v w (Respond rid res) = respond v w rid res"
| "step v w (Abort rid) = abort v w rid"
| "step v w (Fire rid) = fire w rid"

definition run :: "variant \<Rightarrow> world \<Rightarrow> event list \<Rightarrow> world" where
  "run v w evs = foldl (step v) w evs"

section \<open>One call driven to its end\<close>

text \<open>
  The retries a configuration still has, and a measure on the stages of a call that
  every step of its promise chain lowers.
\<close>

definition budget :: "config \<Rightarrow> nat" where
  "budget c = nat (retry c - counter c)"

fun rank :: "stage option \<Rightarrow> nat" where
  "rank (Some (Sleeping d c)) = 4 * budget c + 4"
| "rank (Some (Queued c)) = 4 * budget c + 3"
| "rank (Some (Ready c)) = 4 * budget c + 2"
| "rank (Some (InFlight c)) = 4 * budget c + 1"
| "rank _ = 0"

lemma addReq_config: "\<exists>t. snd (addReq v w c) = c\<lparr>cancelToken := t\<rparr>"
  by (auto simp: addReq_def Let_def intro: exI[of _ "cancelToken c"])

lemma budget_cancelToken [simp]: "budget (c\<lparr>cancelToken := t\<rparr>) = budget c"
  by (simp add: budget_def counter_def)

lemma rank_intercept:
  assumes "requests w rid = Some (Queued c)"
  shows "rank (requests (intercept v w rid) rid) < rank (Some (Queued c))"
proof -
  obtain w1 c1 where a: "addReq v (removeReq v w c) c = (w1, c1)"
    by (cases "addReq v (removeReq v w c) c")
  obtain t where "c1 = c\<lparr>cancelToken := t\<rparr>"
    using addReq_config[of v "removeReq v w c" c] a by auto
  then show ?thesis
    using assms a by (simp add: intercept_def interceptorsRequest_def)
qed

lemma rank_dispatch:
  assumes "requests w rid = Some (Ready c)"
  shows "rank (requests (dispatch v w rid) rid) < rank (Some (Ready c))"
  using assms by (auto simp: dispatch_def deliver_def onRejected_def split: option.splits)

lemma rank_abort:
  assumes "requests w rid = Some (InFlight c)" and "cancelledWith w c = Some r"
  shows "rank (requests (abort v w rid) rid) < rank (Some (InFlight c))"
  using assms by (auto simp: abort_def deliver_def onRejected_def split: option.splits)

lemma rank_fire:
  assumes "requests w rid = Some (Sleeping d c)"
  shows "rank (requests (fire w rid) rid) < rank (Some (Sleeping d c))"
  using assms by (auto simp: fire_def)

lemma retry_budget: "MAxios_retry v c e = Reissue d c' \<Longrightarrow> budget c' < budget c"
  by (auto simp: MAxios_retry_def Let_def budget_def counter_def split: if_splits option.splits)

lemma rank_respond:
  assumes "requests w rid = Some (InFlight c)" and "cancelledWith w c = None"
  shows "rank (requests (respond v w rid res) rid) < rank (Some (InFlight c))"
proof (cases res)
  case (Inr d)
  then show ?thesis
    using assms by (simp add: respond_def deliver_def Let_def)
next
  case (Inl m)
  show ?thesis
  proof (cases "retry c > 0")
    case False
    then show ?thesis
      using assms Inl by (simp add: respond_def deliver_def onRejected_def)
  next
    case True
    show ?thesis
    proof (cases "MAxios_retry v c (AxiosError m (Some c))")
      case (Reissue d c')
      then show ?thesis
        using assms Inl True retry_budget[OF Reissue]
        by (simp add: respond_def deliver_def onRejected_def)
    qed (use assms Inl True in \<open>simp_all add: respond_def deliver_def onRejected_def\<close>)
  qed
qed

text \<open>
  One call alone on the event loop, against a transport that answers a configuration
  with a failure message (\<open>Inl\<close>) or with data (\<open>Inr\<close>): the only step its stage
  allows is taken until the promise is settled.
\<close>

function lifecycle :: "variant \<Rightarrow> (config \<Rightarrow> string + string) \<Rightarrow> world \<Rightarrow> nat \<Rightarrow> world" where
  "lifecycle v tr w rid =
     (case requests w rid of
        Some (Queued c) \<Rightarrow> lifecycle v tr (intercept v w rid) rid
      | Some (Ready c) \<Rightarrow> lifecycle v tr (dispatch v w rid) rid
      | Some (InFlight c) \<Rightarrow>
          (case cancelledWith w c of
             Some r \<Rightarrow> lifecycle v tr (abort v w rid) rid
           | None \<Rightarrow> lifecycle v tr (respond v w rid (tr c)) rid)
      | Some (Sleeping d c) \<Rightarrow> lifecycle v tr (fire w rid) rid
      | Some (Settled out) \<Rightarrow> w
      | None \<Rightarrow> w)"
  by pat_completeness auto
termination
proof (relation "measure (\<lambda>(v, tr, w, rid). rank (requests w rid))")
  show "wf (measure (\<lambda>(v, tr, w, rid). rank (requests w rid)))"
    by simp
qed (simp_all add: rank_intercept rank_dispatch rank_abort rank_respond rank_fire del: rank.simps)

declare lifecycle.simps [simp del]

text \<open>
  Tokens are handed out in order: every token the registry holds and every token that
  was cancelled is older than the next fresh one.
\<close>

definition wellformed :: "world \<Rightarrow> bool" where
  "wellformed w \<longleftrightarrow>
     (\<forall>k t. requestMap w k = Some t \<longrightarrow> t < nextToken w) \<and>
     (\<forall>t r. tokenReason w t = Some r \<longrightarrow> t < nextToken w)"

section \<open>Predicates and examples used in the statements\<close>

text \<open>The fields of a configuration that no operation of the class writes.\<close>

definition sameSettings :: "config \<Rightarrow> config \<Rightarrow> bool" where
  "sameSettings c c' \<longleftrightarrow>
     methodName c' = methodName c \<and> url c' = url c \<and>
     cancelDuplicated c' = cancelDuplicated c \<and> retry c' = retry c \<and>
     retryDelay c' = retryDelay c \<and> retryDelayRise c' = retryDelayRise c \<and>
     cache c' = cache c \<and> duplicatedKey c' = duplicatedKey c"

text \<open>The events in which the transport does not answer with a response.\<close>

fun failing :: "event \<Rightarrow> bool" where
  "failing (Respond rid (Inr d)) = False"
| "failing ev = True"

text \<open>The call, if it is still under way, has a configuration with \<open>cache\<close> off.\<close>

fun cacheOff :: "stage option \<Rightarrow> bool" where
  "cacheOff (Some (Queued c)) = (\<not> cache c)"
| "cacheOff (Some (Ready c)) = (\<not> cache c)"
| "cacheOff (Some (InFlight c)) = (\<not> cache c)"
| "cacheOff (Some (Sleeping d c)) = (\<not> cache c)"
| "cacheOff (Some (Settled out)) = True"
| "cacheOff None = True"

text \<open>The request \<open>{url: "/a"}\<close> and the configuration \<open>request\<close> of index.js makes of it.\<close>

definition exampleOptions :: options where
  "exampleOptions = \<lparr>o_method = None, o_url = ''/a'', o_cancelDuplicated = None,
     o_duplicatedKey = None, o_retry = None, o_retryDelay = None, o_retryDelayRise = None,
     o_timeout = None, o_cache = None, o_retryCount = None\<rparr>"

definition exampleConfig :: config where
  "exampleConfig = \<lparr>methodName = ''GET'', url = ''/a'', cancelDuplicated = False, retry = 0,
     retryDelay = DelayMs 200, retryDelayRise = True, timeout = -1, cache = False,
     retryCount = None, cancelToken = None, duplicatedKey = None\<rparr>"

text \<open>
  \<open>request({url: "/a", cache: true})\<close> from the initial state, answered by the
  transport with data.
\<close>

definition firstCall :: world where
  "firstCall =
     lifecycle JS (\<lambda>c. Inr ''data'') (request JS initial (exampleOptions\<lparr>o_cache := Some True\<rparr>)) 0"

text \<open>
  Two calls of \<open>request({url: "/a", cancelDuplicated: true, retry: 3})\<close>: the first
  has reached the transport when the request interceptor of the second runs.
\<close>

definition superseded :: world where
  "superseded =
     run JS initial
       [Call (exampleOptions\<lparr>o_cancelDuplicated := Some True, o_retry := Some 3\<rparr>),
        Intercept 0, Dispatch 0,
        Call (exampleOptions\<lparr>o_cancelDuplicated := Some True, o_retry := Some 3\<rparr>),
        Intercept 1]"



section \<open>What each operation leaves alone\<close>

lemma cancel_frame [simp]:
  "requestMap (cancel t r w) = requestMap w"
  "responseCacheMap (cancel t r w) = responseCacheMap w"
  "nextToken (cancel t r w) = nextToken w"
  "transportCalls (cancel t r w) = transportCalls w"
  "timers (cancel t r w) = timers w"
  "requests (cancel t r w) = requests w"
  "nextRequest (cancel t r w) = nextRequest w"
  by (simp_all add: cancel_def split: option.splits)

lemma removeReq_frame [simp]:
  "responseCacheMap (removeReq v w c) = responseCacheMap w"
  "nextToken (removeReq v w c) = nextToken w"
  "transportCalls (removeReq v w c) = transportCalls w"
  "timers (removeReq v w c) = timers w"
  "requests (removeReq v w c) = requests w"
  "nextRequest (removeReq v w c) = nextRequest w"
  by (simp_all add: removeReq_def Let_def split: option.splits)

lemma addReq_frame [simp]:
  "responseCacheMap (fst (addReq v w c)) = responseCacheMap w"
  "tokenReason (fst (addReq v w c)) = tokenReason w"
  "transportCalls (fst (addReq v w c)) = transportCalls w"
  "timers (fst (addReq v w c)) = timers w"
  "requests (fst (addReq v w c)) = requests w"
  "nextRequest (fst (addReq v w c)) = nextRequest w"
  by (simp_all add: addReq_def Let_def)

lemma setResponseCache_frame [simp]:
  "requestMap (setResponseCache v w c r) = requestMap w"
  "tokenReason (setResponseCache v w c r) = tokenReason w"
  "nextToken (setResponseCache v w c r) = nextToken w"
  "transportCalls (setResponseCache v w c r) = transportCalls w"
  "timers (setResponseCache v w c r) = timers w"
  "requests (setResponseCache v w c r) = requests w"
  "nextRequest (setResponseCache v w c r) = nextRequest w"
  by (simp_all add: setResponseCache_def)

lemma cancelledWith_frame [simp]:
  "cancelledWith (w\<lparr>requests := x\<rparr>) c = cancelledWith w c"
  "cancelledWith (w\<lparr>transportCalls := y\<rparr>) c = cancelledWith w c"
  "cancelledWith (w\<lparr>timers := z\<rparr>) c = cancelledWith w c"
  "cancelledWith (w\<lparr>nextRequest := n\<rparr>) c = cancelledWith w c"
  by (simp_all add: cancelledWith_def split: option.splits)

lemma onFulfilled_frame [simp]:
  "transportCalls (onFulfilled v w r) = transportCalls w"
  "timers (onFulfilled v w r) = timers w"
  "requests (onFulfilled v w r) = requests w"
  "nextRequest (onFulfilled v w r) = nextRequest w"
  "nextToken (onFulfilled v w r) = nextToken w"
  "tokenReason (onFulfilled v w r) = tokenReason (removeReq v w (resp_config r))"
  by (simp_all add: onFulfilled_def)

lemma counter_update [simp]:
  "counter (c\<lparr>cancelToken := t\<rparr>) = counter c"
  "counter (c\<lparr>timeout := x\<rparr>) = counter c"
  "counter (c\<lparr>retryCount := Some n\<rparr>) = n"
  by (simp_all add: counter_def)

lemma assign_fresh [simp]:
  "cancelToken (assign (defaultConfig v) opts) = None"
  "retryCount (assign (defaultConfig v) opts) = o_retryCount opts"
  by (cases v; simp add: assign_def defaultConfig_def split: option.splits)+

lemma toLocaleLowerCase_GET: "toLocaleLowerCase ''GET'' = ''get''"
  by (simp add: toLocaleLowerCase_def lowerChar_def)

lemma toLocaleLowerCase_get: "toLocaleLowerCase ''get'' = ''get''"
  by (simp add: toLocaleLowerCase_def lowerChar_def)

section \<open>Tokens are handed out in order\<close>

lemma wellformed_fresh: "wellformed w \<Longrightarrow> tokenReason w (nextToken w) = None"
  by (cases "tokenReason w (nextToken w)") (auto simp: wellformed_def)



lemma removeReq_wellformed: "wellformed w \<Longrightarrow> wellformed (removeReq v w c)"
  by (auto simp: wellformed_def removeReq_def cancel_def Let_def split: option.splits if_splits)

lemma addReq_wellformed: "wellformed w \<Longrightarrow> wellformed (fst (addReq v w c))"
  by (auto simp: wellformed_def addReq_def Let_def less_Suc_eq split: if_splits)

lemma setResponseCache_wellformed: "wellformed w \<Longrightarrow> wellformed (setResponseCache v w c r)"
  by (simp add: wellformed_def)

lemma wellformed_requests [simp]: "wellformed (w\<lparr>requests := x\<rparr>) = wellformed w"
  "wellformed (w\<lparr>transportCalls := y\<rparr>) = wellformed w"
  "wellformed (w\<lparr>timers := z\<rparr>) = wellformed w"
  "wellformed (w\<lparr>nextRequest := n\<rparr>) = wellformed w"
  by (simp_all add: wellformed_def)

lemma deliver_wellformed: "wellformed w \<Longrightarrow> wellformed (deliver v w rid res)"
  by (auto simp: deliver_def onFulfilled_def onRejected_def Let_def removeReq_wellformed setResponseCache_wellformed
      split: sum.splits error.splits option.splits action.splits prod.splits)

lemma intercept_wellformed: "wellformed w \<Longrightarrow> wellformed (intercept v w rid)"
  using addReq_wellformed[OF removeReq_wellformed, of w v _ _]
  by (auto simp: intercept_def interceptorsRequest_def split: option.splits stage.splits prod.splits)
   (metis fst_conv)

lemma step_wellformed: "wellformed w \<Longrightarrow> wellformed (step v w ev)"
  by (cases ev) (auto simp: request_def Let_def intercept_wellformed dispatch_def respond_def abort_def fire_def
     deliver_wellformed split: option.splits stage.splits)

lemma run_wellformed: "wellformed w \<Longrightarrow> wellformed (run v w evs)"
  unfolding run_def by (induction evs arbitrary: w) (simp_all add: step_wellformed)

lemma initial_wellformed: "wellformed initial"
  by (simp add: wellformed_def initial_def)

section \<open>The effect of each step\<close>




lemma interceptorsRequest_config:
  "snd (interceptorsRequest v w c) =
     (if cancelDuplicated c then c\<lparr>cancelToken := Some (nextToken w)\<rparr> else c)"
  by (simp add: interceptorsRequest_def addReq_def removeReq_def Let_def split: option.splits)

lemma intercept_Queued:
  assumes "requests w rid = Some (Queued c)"
  shows "requests (intercept v w rid) = (requests w)(rid \<mapsto> Ready (snd (interceptorsRequest v w c)))"
    and "transportCalls (intercept v w rid) = transportCalls w"
    and "timers (intercept v w rid) = timers w"
    and "responseCacheMap (intercept v w rid) = responseCacheMap w"
  using assms
  by (simp_all add: intercept_def interceptorsRequest_def split: prod.splits)
    (metis addReq_frame fst_conv removeReq_frame snd_conv)+


lemma intercept_live:
  assumes "requests w rid = Some (Queued c)" and "wellformed w"
    and "cancelDuplicated c \<or> cancelToken c = None"
  shows "cancelledWith (intercept v w rid) (snd (interceptorsRequest v w c)) = None"
proof (cases "cancelDuplicated c")
  case True
  have "tokenReason (removeReq v w c) (nextToken w) = None"
    using wellformed_fresh[OF removeReq_wellformed[OF assms(2)], of v c] by simp
  then show ?thesis
    using True assms(1)
    by (simp add: intercept_def interceptorsRequest_def addReq_def Let_def cancelledWith_def
        removeReq_def split: option.splits)
next
  case False
  then show ?thesis
    using assms by (simp add: interceptorsRequest_config cancelledWith_def)
qed





text \<open>The response interceptor on a failure of the transport.\<close>

lemma respond_failure:
  assumes f: "requests w rid = Some (InFlight c)" and live: "cancelledWith w c = None"
  shows "respond v w rid (Inl m) =
     (if 0 < retry c \<and> counter c < retry c
      then (removeReq v w c)\<lparr>timers := timers w @ [delayOf c (counter c + 1)],
             requests := (requests w)(rid \<mapsto> Sleeping (delayOf c (counter c + 1))
               (if v = JS \<and> counter c + 1 = retry c
                then c\<lparr>retryCount := Some (counter c + 1), timeout := 15000\<rparr>
                else c\<lparr>retryCount := Some (counter c + 1)\<rparr>))\<rparr>
      else (removeReq v w c)\<lparr>requests := (requests w)(rid \<mapsto> Settled (RejectedError
             (AxiosError m (Some (if 0 < retry c then c\<lparr>retryCount := Some (counter c)\<rparr> else c)))))\<rparr>)"
  using assms
  by (simp add: respond_def deliver_def onRejected_def MAxios_retry_def Let_def)

lemma fire_Sleeping:
  "requests w rid = Some (Sleeping d c) \<Longrightarrow> fire w rid = w\<lparr>requests := (requests w)(rid \<mapsto> Queued c)\<rparr>"
  by (simp add: fire_def)


section \<open>The life of one call\<close>

lemma lifecycle_Queued:
  "requests w rid = Some (Queued c) \<Longrightarrow> lifecycle v tr w rid = lifecycle v tr (intercept v w rid) rid"
  by (subst lifecycle.simps) simp

lemma lifecycle_Ready:
  "requests w rid = Some (Ready c) \<Longrightarrow> lifecycle v tr w rid = lifecycle v tr (dispatch v w rid) rid"
  by (subst lifecycle.simps) simp

lemma lifecycle_InFlight:
  "requests w rid = Some (InFlight c) \<Longrightarrow> cancelledWith w c = None \<Longrightarrow>
   lifecycle v tr w rid = lifecycle v tr (respond v w rid (tr c)) rid"
  by (subst lifecycle.simps) simp

lemma lifecycle_InFlight_cancelled:
  "requests w rid = Some (InFlight c) \<Longrightarrow> cancelledWith w c = Some r \<Longrightarrow>
   lifecycle v tr w rid = lifecycle v tr (abort v w rid) rid"
  by (subst lifecycle.simps) simp

lemma lifecycle_Sleeping:
  "requests w rid = Some (Sleeping d c) \<Longrightarrow> lifecycle v tr w rid = lifecycle v tr (fire w rid) rid"
  by (subst lifecycle.simps) simp

lemma lifecycle_Settled:
  "requests w rid = Some (Settled out) \<Longrightarrow> lifecycle v tr w rid = w"
  by (subst lifecycle.simps) simp

text \<open>One attempt: from the queue to the transport.\<close>

lemma lifecycle_to_transport:
  fixes v :: variant
  assumes q: "requests w rid = Some (Queued c)" and wf: "wellformed w"
    and tok: "cancelDuplicated c \<or> cancelToken c = None"
  defines "c1 \<equiv> snd (interceptorsRequest v w c)"
  shows "\<exists>w2. lifecycle v tr w rid = lifecycle v tr w2 rid \<and> wellformed w2 \<and>
           requests w2 rid = Some (InFlight c1) \<and> cancelledWith w2 c1 = None \<and>
           transportCalls w2 = transportCalls w @ [c1] \<and> timers w2 = timers w \<and>
           responseCacheMap w2 = responseCacheMap w"
proof -
  let ?w1 = "intercept v w rid"
  have r1: "requests ?w1 rid = Some (Ready c1)"
    using intercept_Queued(1)[OF q, of v] by (simp add: c1_def)
  have live: "cancelledWith ?w1 c1 = None"
    using intercept_live[OF q wf tok, of v] by (simp add: c1_def)
  let ?w2 = "dispatch v ?w1 rid"
  have d: "?w2 = ?w1\<lparr>transportCalls := transportCalls ?w1 @ [c1],
                     requests := (requests ?w1)(rid \<mapsto> InFlight c1)\<rparr>"
    using r1 live by (simp add: dispatch_def)
  have "lifecycle v tr w rid = lifecycle v tr ?w2 rid"
    using lifecycle_Queued[OF q] lifecycle_Ready[OF r1] by simp
  moreover have "wellformed ?w2"
    using d intercept_wellformed[OF wf, of v rid] by simp
  moreover have "requests ?w2 rid = Some (InFlight c1)"
    using d by simp
  moreover have "cancelledWith ?w2 c1 = None"
    using d live by simp
  moreover have "transportCalls ?w2 = transportCalls w @ [c1]" "timers ?w2 = timers w"
    "responseCacheMap ?w2 = responseCacheMap w"
    using d intercept_Queued(2,3,4)[OF q, of v] by simp_all
  ultimately show ?thesis by blast
qed





section \<open>A transport that always fails\<close>

lemma sameSettings_refl [simp]: "sameSettings c c"
  by (simp add: sameSettings_def)

lemma sameSettings_trans: "sameSettings a b \<Longrightarrow> sameSettings b c \<Longrightarrow> sameSettings a c"
  by (simp add: sameSettings_def)

lemma sameSettings_update [simp]:
  "sameSettings c (c'\<lparr>cancelToken := t\<rparr>) = sameSettings c c'"
  "sameSettings c (c'\<lparr>retryCount := n\<rparr>) = sameSettings c c'"
  "sameSettings c (c'\<lparr>timeout := x\<rparr>) = sameSettings c c'"
  by (simp_all add: sameSettings_def)

lemma sameSettings_delayOf: "sameSettings c c' \<Longrightarrow> delayOf c' n = delayOf c n"
  by (simp add: sameSettings_def delayOf_def)

lemma lifecycle_always_failing:
  assumes fail: "\<And>c. \<exists>m. tr c = Inl m"
  shows "requests w rid = Some (Queued c) \<Longrightarrow> wellformed w \<Longrightarrow>
     cancelDuplicated c \<or> cancelToken c = None \<Longrightarrow> 0 \<le> counter c \<Longrightarrow>
     k = nat (retry c - counter c) \<Longrightarrow>
     \<exists>cs m cf. transportCalls (lifecycle v tr w rid) = transportCalls w @ cs \<and>
       map counter cs = map (\<lambda>i. counter c + int i) [0..<Suc k] \<and>
       list_all (sameSettings c) cs \<and>
       timers (lifecycle v tr w rid) =
         timers w @ map (\<lambda>i. delayOf c (counter c + 1 + int i)) [0..<k] \<and>
       requests (lifecycle v tr w rid) rid =
         Some (Settled (RejectedError (AxiosError m (Some cf)))) \<and>
       tr (last cs) = Inl m \<and> counter cf = counter c + int k \<and> sameSettings c cf \<and>
       responseCacheMap (lifecycle v tr w rid) = responseCacheMap w"
proof (induction k arbitrary: w c)
  case 0
  define c1 where "c1 = snd (interceptorsRequest v w c)"
  obtain w2 where w2: "lifecycle v tr w rid = lifecycle v tr w2 rid" "wellformed w2"
      "requests w2 rid = Some (InFlight c1)" "cancelledWith w2 c1 = None"
      "transportCalls w2 = transportCalls w @ [c1]" "timers w2 = timers w"
      "responseCacheMap w2 = responseCacheMap w"
    using lifecycle_to_transport[OF "0.prems"(1,2,3), of v tr] unfolding c1_def by blast
  have c1: "sameSettings c c1" "counter c1 = counter c"
    by (simp_all add: c1_def interceptorsRequest_config)
  obtain m where m: "tr c1 = Inl m"
    using fail by blast
  have stop: "\<not> (0 < retry c1 \<and> counter c1 < retry c1)"
    using "0.prems"(5) c1 by (simp add: sameSettings_def)
  let ?cf = "if 0 < retry c1 then c1\<lparr>retryCount := Some (counter c1)\<rparr> else c1"
  let ?w3 = "respond v w2 rid (Inl m)"
  have w3: "?w3 = (removeReq v w2 c1)\<lparr>requests := (requests w2)(rid \<mapsto>
      Settled (RejectedError (AxiosError m (Some ?cf))))\<rparr>"
    using respond_failure[OF w2(3,4), of v m] stop by simp
  have "lifecycle v tr w rid = ?w3"
    using w2(1) lifecycle_InFlight[OF w2(3,4), of v tr] m w3 lifecycle_Settled[of ?w3 rid _ v tr]
    by simp
  moreover have "transportCalls ?w3 = transportCalls w @ [c1]" "timers ?w3 = timers w"
    "responseCacheMap ?w3 = responseCacheMap w"
    "requests ?w3 rid = Some (Settled (RejectedError (AxiosError m (Some ?cf))))"
    using w3 w2 by simp_all
  moreover have "counter ?cf = counter c" "sameSettings c ?cf"
    using c1 by simp_all
  ultimately show ?case
    using c1 m by (intro exI[of _ "[c1]"] exI[of _ m] exI[of _ ?cf]) simp
next
  case (Suc k)
  define c1 where "c1 = snd (interceptorsRequest v w c)"
  obtain w2 where w2: "lifecycle v tr w rid = lifecycle v tr w2 rid" "wellformed w2"
      "requests w2 rid = Some (InFlight c1)" "cancelledWith w2 c1 = None"
      "transportCalls w2 = transportCalls w @ [c1]" "timers w2 = timers w"
      "responseCacheMap w2 = responseCacheMap w"
    using lifecycle_to_transport[OF Suc.prems(1,2,3), of v tr] unfolding c1_def by blast
  have c1: "sameSettings c c1" "counter c1 = counter c"
    by (simp_all add: c1_def interceptorsRequest_config)
  have tok1: "cancelDuplicated c1 \<or> cancelToken c1 = None"
    using Suc.prems(3) by (auto simp: c1_def interceptorsRequest_config)
  obtain m where m: "tr c1 = Inl m"
    using fail by blast
  have more: "0 < retry c1 \<and> counter c1 < retry c1"
    using Suc.prems(4,5) c1 by (simp add: sameSettings_def) arith
  let ?d = "delayOf c1 (counter c1 + 1)"
  let ?c2 = "if v = JS \<and> counter c1 + 1 = retry c1
             then c1\<lparr>retryCount := Some (counter c1 + 1), timeout := 15000\<rparr>
             else c1\<lparr>retryCount := Some (counter c1 + 1)\<rparr>"
  let ?w3 = "respond v w2 rid (Inl m)"
  have w3: "?w3 = (removeReq v w2 c1)\<lparr>timers := timers w2 @ [?d],
      requests := (requests w2)(rid \<mapsto> Sleeping ?d ?c2)\<rparr>"
    using respond_failure[OF w2(3,4), of v m] more by simp
  let ?w4 = "fire ?w3 rid"
  have s3: "requests ?w3 rid = Some (Sleeping ?d ?c2)"
    using w3 by simp
  have w4: "?w4 = ?w3\<lparr>requests := (requests ?w3)(rid \<mapsto> Queued ?c2)\<rparr>"
    using fire_Sleeping[OF s3] .
  have l4: "lifecycle v tr w rid = lifecycle v tr ?w4 rid"
    using w2(1) lifecycle_InFlight[OF w2(3,4), of v tr] m lifecycle_Sleeping[OF s3, of v tr]
    by simp
  have q4: "requests ?w4 rid = Some (Queued ?c2)"
    using w4 by simp
  have wf4: "wellformed ?w4"
    using w4 w3 removeReq_wellformed[OF w2(2), of v c1] by simp
  have c2: "sameSettings c ?c2" "counter ?c2 = counter c + 1"
    using c1 by simp_all
  have tok2: "cancelDuplicated ?c2 \<or> cancelToken ?c2 = None"
    using tok1 by auto
  have k: "k = nat (retry ?c2 - counter ?c2)"
    using Suc.prems(5) c2 by (simp add: sameSettings_def)
  have nonneg: "0 \<le> counter ?c2"
    using c2 Suc.prems(4) by simp
  obtain cs m' cf where ih:
      "transportCalls (lifecycle v tr ?w4 rid) = transportCalls ?w4 @ cs"
      "map counter cs = map (\<lambda>i. counter ?c2 + int i) [0..<Suc k]"
      "list_all (sameSettings ?c2) cs"
      "timers (lifecycle v tr ?w4 rid) =
         timers ?w4 @ map (\<lambda>i. delayOf ?c2 (counter ?c2 + 1 + int i)) [0..<k]"
      "requests (lifecycle v tr ?w4 rid) rid =
         Some (Settled (RejectedError (AxiosError m' (Some cf))))"
      "tr (last cs) = Inl m'" "counter cf = counter ?c2 + int k" "sameSettings ?c2 cf"
      "responseCacheMap (lifecycle v tr ?w4 rid) = responseCacheMap ?w4"
    using Suc.IH[OF q4 wf4 tok2 nonneg k] by blast
  have ne: "cs \<noteq> []"
    using ih(2) by auto
  have t4: "transportCalls ?w4 = transportCalls w @ [c1]"
    "timers ?w4 = timers w @ [delayOf c (counter c + 1)]"
    "responseCacheMap ?w4 = responseCacheMap w"
    using w4 w3 w2 c1 by (simp_all add: sameSettings_delayOf)
  have "transportCalls (lifecycle v tr w rid) = transportCalls w @ (c1 # cs)"
    using l4 ih(1) t4 by simp
  moreover have "map counter (c1 # cs) = map (\<lambda>i. counter c + int i) [0..<Suc (Suc k)]"
    using ih(2) c1 c2(2) by (simp add: map_upt_Suc[of _ "Suc k"] add.assoc del: upt_Suc)
  moreover have "list_all (sameSettings c) (c1 # cs)"
    using ih(3) c1 c2(1) by (auto simp: list_all_iff intro: sameSettings_trans)
  moreover have "timers (lifecycle v tr w rid) =
      timers w @ map (\<lambda>i. delayOf c (counter c + 1 + int i)) [0..<Suc k]"
    using l4 ih(4) t4 c2 sameSettings_delayOf[OF c2(1)]
    by (simp add: map_upt_Suc[of _ k] algebra_simps del: upt_Suc)
  moreover have "requests (lifecycle v tr w rid) rid =
      Some (Settled (RejectedError (AxiosError m' (Some cf))))"
    using l4 ih(5) by simp
  moreover have "tr (last (c1 # cs)) = Inl m'"
    using ih(6) ne by simp
  moreover have "counter cf = counter c + int (Suc k)" "sameSettings c cf"
    using ih(7,8) c2 by (auto intro: sameSettings_trans)
  moreover have "responseCacheMap (lifecycle v tr w rid) = responseCacheMap w"
    using l4 ih(9) t4 by simp
  ultimately show ?case
    by blast
qed

lemma step_failing_cache:
  "failing ev \<Longrightarrow> responseCacheMap (step v w ev) = responseCacheMap w"
proof (cases ev)
  case (Call opts)
  then show ?thesis by (simp add: request_def Let_def split: option.splits)
next
  case (Intercept rid)
  show ?thesis
  proof (cases "\<exists>c. requests w rid = Some (Queued c)")
    case True
    then show ?thesis using Intercept intercept_Queued(4)[of w rid _ v] by auto
  next
    case False
    then show ?thesis using Intercept by (auto simp: intercept_def split: option.splits stage.splits)
  qed
next
  case (Dispatch rid)
  then show ?thesis
    by (auto simp: dispatch_def deliver_def onRejected_def split: option.splits stage.splits)
next
  case (Respond rid res)
  assume f: "failing ev"
  then obtain m where "res = Inl m" using Respond by (cases res) auto
  then show ?thesis using Respond
    by (auto simp: respond_def deliver_def onRejected_def Let_def
        split: option.splits stage.splits action.splits)
next
  case (Abort rid)
  then show ?thesis
    by (auto simp: abort_def deliver_def onRejected_def split: option.splits stage.splits)
next
  case (Fire rid)
  then show ?thesis
    by (auto simp: fire_def split: option.splits stage.splits)
qed

lemma run_failing_cache:
  "list_all failing evs \<Longrightarrow> responseCacheMap (run v w evs) = responseCacheMap w"
  unfolding run_def by (induction evs arbitrary: w) (simp_all add: step_failing_cache)

lemma request_miss:
  assumes "\<not> cache (assign (defaultConfig v) opts) \<or>
           responseCacheMap w (getDuplicatedKey v (assign (defaultConfig v) opts)) = None"
  shows "request v w opts =
           w\<lparr>nextRequest := Suc (nextRequest w),
             requests := (requests w)(nextRequest w \<mapsto> Queued (assign (defaultConfig v) opts))\<rparr>"
  using assms by (auto simp: request_def Let_def getResponseCache_def)

lemma retry_budget_general:
  assumes fail: "\<And>c. \<exists>m. tr c = Inl m"
    and fresh: "o_retryCount opts = None"
    and miss: "\<not> cache (assign (defaultConfig v) opts) \<or>
           responseCacheMap w (getDuplicatedKey v (assign (defaultConfig v) opts)) = None"
    and wf: "wellformed w"
    and n: "0 \<le> retry (assign (defaultConfig v) opts)"
  defines "c \<equiv> assign (defaultConfig v) opts"
  defines "final \<equiv> lifecycle v tr (request v w opts) (nextRequest w)"
  shows "\<exists>cs m cf. transportCalls final = transportCalls w @ cs \<and>
       map counter cs = map int [0..<Suc (nat (retry c))] \<and>
       list_all (sameSettings c) cs \<and>
       timers final = timers w @ map (\<lambda>i. delayOf c (1 + int i)) [0..<nat (retry c)] \<and>
       requests final (nextRequest w) = Some (Settled (RejectedError (AxiosError m (Some cf)))) \<and>
       tr (last cs) = Inl m \<and> counter cf = retry c \<and> sameSettings c cf"
proof -
  let ?w0 = "request v w opts"
  have w0: "?w0 = w\<lparr>nextRequest := Suc (nextRequest w),
             requests := (requests w)(nextRequest w \<mapsto> Queued c)\<rparr>"
    using request_miss[OF miss] by (simp add: c_def)
  have q: "requests ?w0 (nextRequest w) = Some (Queued c)"
    using w0 by simp
  have wf0: "wellformed ?w0"
    using w0 wf by simp
  have cnt: "counter c = 0"
    using fresh by (simp add: c_def counter_def)
  have tok: "cancelDuplicated c \<or> cancelToken c = None"
    by (simp add: c_def)
  have k: "nat (retry c) = nat (retry c - counter c)"
    using cnt by simp
  show ?thesis
    using lifecycle_always_failing[of tr ?w0 "nextRequest w" c "nat (retry c)" v, OF fail q wf0 tok _ k]
      cnt n w0 unfolding final_def c_def by simp blast
qed

section \<open>Calls that do not use the cache\<close>

lemma MAxios_retry_cache: "MAxios_retry v c e = Reissue d c' \<Longrightarrow> cache c' = cache c"
  by (auto simp: MAxios_retry_def Let_def split: if_splits)

lemma deliver_cacheOff:
  assumes "case res of Inl e \<Rightarrow> (case e of Cancel r \<Rightarrow> True | AxiosError m None \<Rightarrow> True
             | AxiosError m (Some c) \<Rightarrow> \<not> cache c)
           | Inr r \<Rightarrow> \<not> cache (resp_config r)"
  shows "responseCacheMap (deliver v w rid res) = responseCacheMap w \<and>
         cacheOff (requests (deliver v w rid res) rid)"
  using assms
  by (auto simp: deliver_def onFulfilled_def onRejected_def Let_def setResponseCache_def
      dest: MAxios_retry_cache
      split: sum.splits error.splits option.splits action.splits prod.splits if_splits)

lemma intercept_cacheOff:
  assumes "cacheOff (requests w rid)"
  shows "responseCacheMap (intercept v w rid) = responseCacheMap w \<and>
         cacheOff (requests (intercept v w rid) rid)"
proof (cases "\<exists>c. requests w rid = Some (Queued c)")
  case True
  then obtain c where q: "requests w rid = Some (Queued c)" by blast
  show ?thesis
    using assms q intercept_Queued(1,4)[OF q, of v]
    by (simp add: interceptorsRequest_config)
next
  case False
  then have "intercept v w rid = w"
    by (auto simp: intercept_def split: option.splits stage.splits)
  then show ?thesis using assms by simp
qed

lemma dispatch_cacheOff:
  assumes "cacheOff (requests w rid)"
  shows "responseCacheMap (dispatch v w rid) = responseCacheMap w \<and>
         cacheOff (requests (dispatch v w rid) rid)"
  using assms deliver_cacheOff[of "Inl (Cancel _)" v w rid]
  by (auto simp: dispatch_def split: option.splits stage.splits)

lemma abort_cacheOff:
  assumes "cacheOff (requests w rid)"
  shows "responseCacheMap (abort v w rid) = responseCacheMap w \<and>
         cacheOff (requests (abort v w rid) rid)"
  using assms deliver_cacheOff[of "Inl (Cancel _)" v w rid]
  by (auto simp: abort_def split: option.splits stage.splits)

lemma respond_cacheOff:
  assumes "cacheOff (requests w rid)"
  shows "responseCacheMap (respond v w rid res) = responseCacheMap w \<and>
         cacheOff (requests (respond v w rid res) rid)"
proof (cases "\<exists>c. requests w rid = Some (InFlight c) \<and> cancelledWith w c = None")
  case True
  then obtain c where f: "requests w rid = Some (InFlight c)" "cancelledWith w c = None"
    by blast
  then have off: "\<not> cache c" using assms by simp
  have "respond v w rid res = deliver v w rid
      (case res of Inl m \<Rightarrow> Inl (AxiosError m (Some c)) | Inr d \<Rightarrow> Inr (Response d c))"
    using f by (simp add: respond_def)
  then show ?thesis
    using deliver_cacheOff[of "case res of Inl m \<Rightarrow> Inl (AxiosError m (Some c))
        | Inr d \<Rightarrow> Inr (Response d c)" v w rid] off
    by (cases res) simp_all
next
  case False
  then have "respond v w rid res = w"
    by (auto simp: respond_def split: option.splits stage.splits)
  then show ?thesis using assms by simp
qed

lemma fire_cacheOff:
  assumes "cacheOff (requests w rid)"
  shows "responseCacheMap (fire w rid) = responseCacheMap w \<and>
         cacheOff (requests (fire w rid) rid)"
  using assms by (auto simp: fire_def split: option.splits stage.splits)

lemma lifecycle_cacheOff:
  "cacheOff (requests w rid) \<Longrightarrow>
   responseCacheMap (lifecycle v tr w rid) = responseCacheMap w"
proof (induction v tr w rid rule: lifecycle.induct)
  case (1 v tr w rid)
  show ?case
  proof (cases "requests w rid")
    case None
    then show ?thesis by (subst lifecycle.simps) simp
  next
    case (Some st)
    show ?thesis
    proof (cases st)
      case (Queued c)
      then show ?thesis
        using Some "1.IH"(1)[of st c] "1.prems" intercept_cacheOff[OF "1.prems", of v]
          lifecycle_Queued[of w rid c v tr] by simp
    next
      case (Ready c)
      then show ?thesis
        using Some "1.IH"(2)[of st c] "1.prems" dispatch_cacheOff[OF "1.prems", of v]
          lifecycle_Ready[of w rid c v tr] by simp
    next
      case (InFlight c)
      show ?thesis
      proof (cases "cancelledWith w c")
        case None
        then show ?thesis
          using Some InFlight "1.IH"(3)[of st c] "1.prems" respond_cacheOff[OF "1.prems", of v "tr c"]
            lifecycle_InFlight[of w rid c v tr] by simp
      next
        case (Some r)
        then show ?thesis
          using \<open>requests w rid = Some st\<close> InFlight "1.IH"(4)[of st c r] "1.prems"
            abort_cacheOff[OF "1.prems", of v]
            lifecycle_InFlight_cancelled[of w rid c r v tr] by simp
      qed
    next
      case (Sleeping d c)
      then show ?thesis
        using Some "1.IH"(5)[of st d c] "1.prems" fire_cacheOff[OF "1.prems"]
          lifecycle_Sleeping[of w rid d c v tr] by simp
    next
      case (Settled out)
      then show ?thesis
        using Some lifecycle_Settled[of w rid out v tr] by simp
    qed
  qed
qed

section \<open>Two calls with one key\<close>



section \<open>Evaluating the examples\<close>

lemmas eval_defs = lifecycle.simps request_def intercept_def dispatch_def respond_def abort_def
  fire_def deliver_def onFulfilled_def onRejected_def interceptorsRequest_def addReq_def
  removeReq_def setResponseCache_def getResponseCache_def cancel_def cancelledWith_def
  MAxios_retry_def getDuplicatedKey_def getDuplicatedKey_js_def getDuplicatedKey_ts_def
  assign_def defaultConfig_def defaultKey_def toLocaleLowerCase_GET toLocaleLowerCase_get
  initial_def exampleOptions_def exampleConfig_def Let_def counter_def delayOf_def
  descriptor.truncate_def run_def ERROR_TYPE_Cancel_def

lemma firstCall_eval:
  "firstCall =
     initial\<lparr>responseCacheMap := [''get/a'' \<mapsto> Response ''data'' (exampleConfig\<lparr>cache := True\<rparr>)],
       transportCalls := [exampleConfig\<lparr>cache := True\<rparr>],
       requests := [0 \<mapsto> Settled (Resolved (Response ''data'' (exampleConfig\<lparr>cache := True\<rparr>)))],
       nextRequest := 1\<rparr>"
  unfolding firstCall_def by (simp add: eval_defs)

lemma superseded_eval:
  "superseded =
     initial\<lparr>requestMap := [''get/a'' \<mapsto> 1],
       tokenReason := [0 \<mapsto> CancelReason ''cancelDuplicated'' ''Request canceled ''],
       nextToken := 2,
       transportCalls := [exampleConfig\<lparr>cancelDuplicated := True, retry := 3, cancelToken := Some 0\<rparr>],
       requests := [0 \<mapsto> InFlight (exampleConfig\<lparr>cancelDuplicated := True, retry := 3,
                                     cancelToken := Some 0\<rparr>),
                    1 \<mapsto> Ready (exampleConfig\<lparr>cancelDuplicated := True, retry := 3,
                                  cancelToken := Some 1\<rparr>)],
       nextRequest := 2\<rparr>"
  unfolding superseded_def by (simp add: eval_defs fun_upd_twist)



section \<open>The cache hit (C1)\<close>

text \<open>
  C1: when the merged configuration has \<open>cache\<close> on and the cache holds a response
  under its key, \<open>request\<close> settles the new promise at once with that response and
  changes nothing else: the transport log, the registry, the tokens, the timers and the
  cache are as before. Nothing remains to be run for the call: driving it to its end
  against any transport is the identity.
\<close>

theorem C1_cache_hit:
  assumes "cache (assign (defaultConfig v) opts)"
    and "responseCacheMap w (getDuplicatedKey v (assign (defaultConfig v) opts)) = Some r"
  shows "request v w opts =
           w\<lparr>nextRequest := Suc (nextRequest w),
             requests := (requests w)(nextRequest w \<mapsto> Settled (Resolved r))\<rparr> \<and>
         lifecycle v tr (request v w opts) (nextRequest w) = request v w opts"
proof -
  have a: "request v w opts =
           w\<lparr>nextRequest := Suc (nextRequest w),
             requests := (requests w)(nextRequest w \<mapsto> Settled (Resolved r))\<rparr>"
    using assms by (simp add: request_def Let_def getResponseCache_def)
  then have "requests (request v w opts) (nextRequest w) = Some (Settled (Resolved r))"
    by simp
  then have "lifecycle v tr (request v w opts) (nextRequest w) = request v w opts"
    by (rule lifecycle_Settled)
  with a show ?thesis by simp
qed

text \<open>
  The same request twice in a row: the second is answered from the cache with the
  response of the first, and the transport has been invoked once.
\<close>

theorem C1_cache_hit_witness:
  "request JS firstCall (exampleOptions\<lparr>o_cache := Some True\<rparr>) =
     firstCall\<lparr>nextRequest := 2,
       requests := (requests firstCall)
         (1 \<mapsto> Settled (Resolved (Response ''data'' (exampleConfig\<lparr>cache := True\<rparr>))))\<rparr> \<and>
   requests firstCall 0 =
     Some (Settled (Resolved (Response ''data'' (exampleConfig\<lparr>cache := True\<rparr>)))) \<and>
   length (transportCalls firstCall) = 1 \<and>
   length (transportCalls (lifecycle JS (\<lambda>c. Inr ''data'')
     (request JS firstCall (exampleOptions\<lparr>o_cache := Some True\<rparr>)) 1)) = 1"
  using C1_cache_hit [of JS "exampleOptions\<lparr>o_cache := Some True\<rparr>" firstCall
      "Response ''data'' (exampleConfig\<lparr>cache := True\<rparr>)" "\<lambda>c. Inr ''data''"]
  by (simp add: firstCall_eval eval_defs)

section \<open>Duplicate requests (C2)\<close>




section \<open>The retry budget (C3)\<close>

text \<open>
  C3: a request with \<open>retry = n\<close>, \<open>n \<ge> 0\<close>, issued with no counter of its own
  in a world where the transport has never answered with a response (so that nothing is
  cached), against a transport that fails on every configuration, is handed to the
  transport exactly \<open>n + 1\<close> times. The configurations of these calls carry the
  counters \<open>0, 1, ..., n\<close>: one counter in the descriptor, one step per re-issue,
  never above \<open>retry\<close>. The promise ends rejected with the error of the last call,
  whose descriptor has the counter \<open>n\<close>.
\<close>

theorem C3_retry_budget:
  fixes v :: variant
  assumes "\<forall>c. \<exists>m. tr c = Inl m"
    and "list_all failing evs"
    and "o_retryCount opts = None"
    and "0 \<le> retry (assign (defaultConfig v) opts)"
  defines "w \<equiv> run v initial evs"
  defines "n \<equiv> retry (assign (defaultConfig v) opts)"
  defines "final \<equiv> lifecycle v tr (request v w opts) (nextRequest w)"
  shows "\<exists>cs m cf. transportCalls final = transportCalls w @ cs \<and>
           length cs = nat n + 1 \<and>
           map counter cs = map int [0..<nat n + 1] \<and>
           requests final (nextRequest w) =
             Some (Settled (RejectedError (AxiosError m (Some cf)))) \<and>
           tr (last cs) = Inl m \<and> counter cf = n"
proof -
  have wf: "wellformed w"
    unfolding w_def by (rule run_wellformed[OF initial_wellformed])
  have "responseCacheMap w = Map.empty"
    unfolding w_def using run_failing_cache[OF assms(2), of v initial] by (simp add: initial_def)
  then have miss: "\<not> cache (assign (defaultConfig v) opts) \<or>
      responseCacheMap w (getDuplicatedKey v (assign (defaultConfig v) opts)) = None"
    by simp
  obtain cs m cf where r: "transportCalls final = transportCalls w @ cs"
      "map counter cs = map int [0..<Suc (nat n)]"
      "requests final (nextRequest w) = Some (Settled (RejectedError (AxiosError m (Some cf))))"
      "tr (last cs) = Inl m" "counter cf = n"
    using retry_budget_general[of tr opts v w, OF _ assms(3) miss wf assms(4)] assms(1)
    unfolding final_def n_def by blast
  have "length cs = nat n + 1"
    using arg_cong[OF r(2), of length] by simp
  then show ?thesis
    using r by (intro exI[of _ cs] exI[of _ m] exI[of _ cf]) simp
qed

theorem C3_retry_budget_witness:
  "\<exists>cs m cf.
     transportCalls (lifecycle JS (\<lambda>c. Inl ''boom'')
        (request JS initial (exampleOptions\<lparr>o_retry := Some 2\<rparr>)) 0) = cs \<and>
     length cs = 3 \<and> map counter cs = [0, 1, 2] \<and>
     requests (lifecycle JS (\<lambda>c. Inl ''boom'')
        (request JS initial (exampleOptions\<lparr>o_retry := Some 2\<rparr>)) 0) 0 =
       Some (Settled (RejectedError (AxiosError m (Some cf)))) \<and>
     m = ''boom'' \<and> counter cf = 2"
  using C3_retry_budget [of "\<lambda>c. Inl ''boom''" "[]" "exampleOptions\<lparr>o_retry := Some 2\<rparr>" JS]
  by (simp add: run_def initial_def exampleOptions_def assign_def defaultConfig_def
      eval_nat_numeral)

section \<open>The exhausted retry budget (C4)\<close>

text \<open>
  C4, against the claim as stated: the rejection of an exhausted retry has no kind
  RetryExhausted. For a descriptor with \<open>retry = 0\<close> and the counter 0 the retry
  scheduler rejects with the error it was given, untouched, and this is the very value
  with which the rejection handler rejects the same failure on its path without retry
  budget (\<open>retry > 0\<close> is false there, the scheduler is not called). The same holds
  for \<open>retry = 2\<close> with the counter 2: the rejection is the bare error.
\<close>

theorem C4_counterexample:
  "MAxios_retry JS (exampleConfig\<lparr>retryCount := Some 0\<rparr>)
      (AxiosError ''boom'' (Some (exampleConfig\<lparr>retryCount := Some 0\<rparr>))) =
     Reject (AxiosError ''boom'' (Some (exampleConfig\<lparr>retryCount := Some 0\<rparr>))) \<and>
   onRejected JS initial (AxiosError ''boom'' (Some (exampleConfig\<lparr>retryCount := Some 0\<rparr>))) =
     (initial, Reject (AxiosError ''boom'' (Some (exampleConfig\<lparr>retryCount := Some 0\<rparr>)))) \<and>
   onRejected JS initial
      (AxiosError ''boom'' (Some (exampleConfig\<lparr>retry := 2, retryCount := Some 2\<rparr>))) =
     (initial, Reject (AxiosError ''boom'' (Some (exampleConfig\<lparr>retry := 2, retryCount := Some 2\<rparr>))))"
  by (simp add: MAxios_retry_def onRejected_def removeReq_def Let_def counter_def exampleConfig_def)

text \<open>
  C4, amended. When the counter of the descriptor has reached or passed \<open>retry\<close>, the
  retry scheduler rejects with the error it was given (its \<open>config\<close> is the
  descriptor, in which an undefined counter is now written as 0) and starts no timer.
  For an error whose \<open>config\<close> is the descriptor with its counter set, the rejection
  is the error unchanged, and a call in flight whose transport fails then ends rejected
  with that error, with no timer and no further transport call. The rejection carries
  no kind: the rejection handler rejects with the same bare error whether the budget is
  exhausted or there is none (\<open>retry \<le> 0\<close>).
\<close>

theorem C4_retry_exhausted:
  "(retry c \<le> counter c \<longrightarrow>
      MAxios_retry v c e = Reject (withConfig e (c\<lparr>retryCount := Some (counter c)\<rparr>))) \<and>
   (\<forall>n m. retryCount c = Some n \<and> retry c \<le> n \<longrightarrow>
      MAxios_retry v c (AxiosError m (Some c)) = Reject (AxiosError m (Some c))) \<and>
   (\<forall>n m. requests w rid = Some (InFlight c) \<and> cancelledWith w c = None \<and>
      0 < retry c \<and> retryCount c = Some n \<and> retry c \<le> n \<longrightarrow>
      requests (respond v w rid (Inl m)) rid =
        Some (Settled (RejectedError (AxiosError m (Some c)))) \<and>
      transportCalls (respond v w rid (Inl m)) = transportCalls w \<and>
      timers (respond v w rid (Inl m)) = timers w) \<and>
   (\<forall>n m. retryCount c = Some n \<and> retry c \<le> n \<longrightarrow>
      snd (onRejected v w (AxiosError m (Some c))) = Reject (AxiosError m (Some c))) \<and>
   (\<forall>m. retry c \<le> 0 \<longrightarrow>
      snd (onRejected v w (AxiosError m (Some c))) = Reject (AxiosError m (Some c)))"
  by (auto simp: MAxios_retry_def Let_def counter_def respond_def deliver_def onRejected_def)

theorem C4_retry_exhausted_witness:
  "MAxios_retry JS (exampleConfig\<lparr>retry := 2, retryCount := Some 2\<rparr>)
      (AxiosError ''boom'' (Some (exampleConfig\<lparr>retry := 2, retryCount := Some 2\<rparr>)))
    = Reject (AxiosError ''boom'' (Some (exampleConfig\<lparr>retry := 2, retryCount := Some 2\<rparr>))) \<and>
   snd (onRejected JS initial
      (AxiosError ''boom'' (Some (exampleConfig\<lparr>retry := 2, retryCount := Some 2\<rparr>))))
    = Reject (AxiosError ''boom'' (Some (exampleConfig\<lparr>retry := 2, retryCount := Some 2\<rparr>))) \<and>
   snd (onRejected JS initial (AxiosError ''boom'' (Some exampleConfig)))
    = Reject (AxiosError ''boom'' (Some exampleConfig))"
  using C4_retry_exhausted [of "exampleConfig\<lparr>retry := 2, retryCount := Some 2\<rparr>" JS
      "AxiosError ''boom'' (Some (exampleConfig\<lparr>retry := 2, retryCount := Some 2\<rparr>))" initial 0]
    C4_retry_exhausted [of exampleConfig JS "AxiosError ''boom'' (Some exampleConfig)" initial 0]
  by (simp add: exampleConfig_def counter_def)

section \<open>Key derivation (C5)\<close>

text \<open>
  C5, against the claim as stated: in index.ts a supplied \<open>duplicatedKey\<close> that
  returns the empty string gives the empty key, not the lower-cased method followed by
  the url (which is \<open>get/a\<close> for this descriptor).
\<close>

theorem C5_counterexample:
  "getDuplicatedKey TS (exampleConfig\<lparr>duplicatedKey := Some (\<lambda>d. '''')\<rparr>) = '''' \<and>
   toLocaleLowerCase (methodName exampleConfig) @ url exampleConfig = ''get/a''"
  by (simp add: getDuplicatedKey_def getDuplicatedKey_ts_def exampleConfig_def
      toLocaleLowerCase_GET)

text \<open>
  C5, amended. In index.js the key is the result of \<open>duplicatedKey\<close> when that is a
  function and its result is not empty, and the lower-cased method followed by the url
  when it is no function or its result is empty. In index.ts the key is the result of
  \<open>duplicatedKey\<close> whatever it is, and the empty string when the configuration has
  none; there is no fallback. In both variants a request that supplies no
  \<open>duplicatedKey\<close> gets, through the defaults of \<open>request\<close>, the lower-cased
  method followed by the url.
\<close>

theorem C5_key_derivation:
  "(\<forall>f. duplicatedKey c = Some f \<and> f (descriptor.truncate c) \<noteq> '''' \<longrightarrow>
      getDuplicatedKey JS c = f (descriptor.truncate c)) \<and>
   (duplicatedKey c = None \<or> (\<exists>f. duplicatedKey c = Some f \<and> f (descriptor.truncate c) = '''') \<longrightarrow>
      getDuplicatedKey JS c = toLocaleLowerCase (methodName c) @ url c) \<and>
   (\<forall>f. duplicatedKey c = Some f \<longrightarrow> getDuplicatedKey TS c = f (descriptor.truncate c)) \<and>
   (duplicatedKey c = None \<longrightarrow> getDuplicatedKey TS c = '''') \<and>
   (o_duplicatedKey opts = None \<longrightarrow>
      getDuplicatedKey v (assign (defaultConfig v) opts) =
        toLocaleLowerCase (methodName (assign (defaultConfig v) opts)) @ o_url opts)"
  by (cases v)
    (auto simp: getDuplicatedKey_def getDuplicatedKey_js_def getDuplicatedKey_ts_def Let_def
      assign_def defaultConfig_def defaultKey_def descriptor.truncate_def)

theorem C5_key_derivation_witness:
  "getDuplicatedKey JS (exampleConfig\<lparr>duplicatedKey := Some (\<lambda>d. ''k'' @ url d)\<rparr>) = ''k/a'' \<and>
   getDuplicatedKey JS (exampleConfig\<lparr>duplicatedKey := Some (\<lambda>d. '''')\<rparr>) = ''get/a'' \<and>
   getDuplicatedKey JS exampleConfig = ''get/a'' \<and>
   getDuplicatedKey TS (exampleConfig\<lparr>duplicatedKey := Some (\<lambda>d. '''')\<rparr>) = '''' \<and>
   getDuplicatedKey TS exampleConfig = '''' \<and>
   getDuplicatedKey JS (assign (defaultConfig JS) exampleOptions) = ''get/a'' \<and>
   getDuplicatedKey TS (assign (defaultConfig TS) exampleOptions) = ''get/a''"
  using C5_key_derivation [of "exampleConfig\<lparr>duplicatedKey := Some (\<lambda>d. ''k'' @ url d)\<rparr>"
      exampleOptions JS]
    C5_key_derivation [of "exampleConfig\<lparr>duplicatedKey := Some (\<lambda>d. '''')\<rparr>" exampleOptions TS]
    C5_key_derivation [of exampleConfig exampleOptions JS]
  by (simp add: exampleConfig_def exampleOptions_def descriptor.truncate_def assign_def
      defaultConfig_def toLocaleLowerCase_GET toLocaleLowerCase_get)

section \<open>The retry delay (C6)\<close>

text \<open>
  C6: a retry that is not exhausted starts a timer whose delay is
  \<open>retryDelay(retryCount)\<close> when \<open>retryDelay\<close> is a function, and otherwise
  \<open>retryDelay * retryCount\<close> when \<open>retryDelayRise\<close> is true and
  \<open>retryDelay * 1\<close> when it is false, \<open>retryCount\<close> being the counter after its
  increment. Over the whole life of a request issued with no counter of its own against
  a transport that always fails, the timers started are those of the attempts
  \<open>1, ..., retry\<close> in this order: with \<open>retryDelay = 100\<close> the delays are
  \<open>100 * k\<close> with the rise and \<open>100\<close> without.
\<close>

theorem C6_retry_delay:
  fixes v :: variant
  defines "delay \<equiv> (\<lambda>c k. case retryDelay c of
                         DelayFn f \<Rightarrow> f k
                       | DelayMs d \<Rightarrow> d * (if retryDelayRise c then k else 1))"
  shows "(counter c < retry c \<longrightarrow>
            (\<exists>c'. MAxios_retry v c e = Reissue (delay c (counter c + 1)) c')) \<and>
         ((\<forall>c. \<exists>m. tr c = Inl m) \<and> list_all failing evs \<and> o_retryCount opts = None \<and>
          0 \<le> retry (assign (defaultConfig v) opts) \<longrightarrow>
            timers (lifecycle v tr (request v (run v initial evs) opts)
                      (nextRequest (run v initial evs))) =
              timers (run v initial evs) @
              map (\<lambda>i. delay (assign (defaultConfig v) opts) (1 + int i))
                [0..<nat (retry (assign (defaultConfig v) opts))])"
proof (intro conjI impI)
  assume "counter c < retry c"
  then show "\<exists>c'. MAxios_retry v c e = Reissue (delay c (counter c + 1)) c'"
    by (auto simp: MAxios_retry_def Let_def delayOf_def delay_def)
next
  let ?w = "run v initial evs"
  assume a: "(\<forall>c. \<exists>m. tr c = Inl m) \<and> list_all failing evs \<and> o_retryCount opts = None \<and>
          0 \<le> retry (assign (defaultConfig v) opts)"
  have wf: "wellformed ?w"
    by (rule run_wellformed[OF initial_wellformed])
  have "responseCacheMap ?w = Map.empty"
    using run_failing_cache[of evs v initial] a by (simp add: initial_def)
  then have miss: "\<not> cache (assign (defaultConfig v) opts) \<or>
      responseCacheMap ?w (getDuplicatedKey v (assign (defaultConfig v) opts)) = None"
    by simp
  have d: "delayOf = delay"
    by (intro ext) (simp add: delay_def delayOf_def)
  show "timers (lifecycle v tr (request v ?w opts) (nextRequest ?w)) =
      timers ?w @ map (\<lambda>i. delay (assign (defaultConfig v) opts) (1 + int i))
        [0..<nat (retry (assign (defaultConfig v) opts))]"
  proof -
    have f: "\<And>c. \<exists>m. tr c = Inl m" and fresh: "o_retryCount opts = None"
      and n: "0 \<le> retry (assign (defaultConfig v) opts)"
      using a by blast+
    show ?thesis
      using retry_budget_general[of tr opts v ?w, OF f fresh miss wf n] unfolding d by blast
  qed
qed

theorem C6_retry_delay_witness:
  "(\<exists>c'. MAxios_retry JS (exampleConfig\<lparr>retry := 3, retryDelay := DelayMs 100, retryCount := Some 1\<rparr>)
            (AxiosError ''boom'' None) = Reissue 200 c') \<and>
   timers (lifecycle JS (\<lambda>c. Inl ''boom'')
     (request JS initial (exampleOptions\<lparr>o_retry := Some 3, o_retryDelay := Some (DelayMs 100)\<rparr>)) 0)
     = [100, 200, 300] \<and>
   timers (lifecycle JS (\<lambda>c. Inl ''boom'')
     (request JS initial (exampleOptions\<lparr>o_retry := Some 3, o_retryDelay := Some (DelayMs 100),
        o_retryDelayRise := Some False\<rparr>)) 0)
     = [100, 100, 100]"
  using C6_retry_delay [of "exampleConfig\<lparr>retry := 3, retryDelay := DelayMs 100, retryCount := Some 1\<rparr>"
      JS "AxiosError ''boom'' None" "\<lambda>c. Inl ''boom''" "[]"
      "exampleOptions\<lparr>o_retry := Some 3, o_retryDelay := Some (DelayMs 100)\<rparr>"]
    C6_retry_delay [of "exampleConfig\<lparr>retry := 3, retryDelay := DelayMs 100, retryCount := Some 1\<rparr>"
      JS "AxiosError ''boom'' None" "\<lambda>c. Inl ''boom''" "[]"
      "exampleOptions\<lparr>o_retry := Some 3, o_retryDelay := Some (DelayMs 100),
        o_retryDelayRise := Some False\<rparr>"]
  by (simp add: run_def initial_def exampleOptions_def exampleConfig_def assign_def defaultConfig_def
      counter_def eval_nat_numeral)

section \<open>Cancellations are not retried (C7)\<close>

text \<open>
  C7: the rejection handler answers an axios \<open>Cancel\<close> with
  \<open>Promise.reject(error.message)\<close> and changes nothing; the retry scheduler is not
  called. So a call whose token has been cancelled, whatever its \<open>retry\<close>, ends
  rejected with the reason of the cancellation as soon as axios looks at the token
  (before the transport, or in flight), the transport cannot answer it any more, and no
  timer or transport call follows. The reason that \<open>removeReq\<close> gives a superseded
  token has the type \<open>ERROR_TYPE.Cancel\<close>.
\<close>

theorem C7_cancel_not_retried:
  "onRejected v w (Cancel r) = (w, RejectMessage r) \<and>
   (requests w rid = Some (InFlight c) \<and> cancelledWith w c = Some r \<longrightarrow>
      abort v w rid = w\<lparr>requests := (requests w)(rid \<mapsto> Settled (RejectedMessage r))\<rparr> \<and>
      respond v w rid res = w \<and>
      lifecycle v tr w rid = w\<lparr>requests := (requests w)(rid \<mapsto> Settled (RejectedMessage r))\<rparr>) \<and>
   (requests w rid = Some (Ready c) \<and> cancelledWith w c = Some r \<longrightarrow>
      dispatch v w rid = w\<lparr>requests := (requests w)(rid \<mapsto> Settled (RejectedMessage r))\<rparr>) \<and>
   (cancelDuplicated c' \<and> requestMap w (getDuplicatedKey v c') = Some t \<and>
    tokenReason w t = None \<longrightarrow>
      tokenReason (removeReq v w c') t =
        Some (CancelReason ERROR_TYPE_Cancel ''Request canceled ''))"
proof -
  have handler: "onRejected v w (Cancel r) = (w, RejectMessage r)"
    by (simp add: onRejected_def)
  have flight: "abort v w rid = w\<lparr>requests := (requests w)(rid \<mapsto> Settled (RejectedMessage r))\<rparr> \<and>
      respond v w rid res = w \<and>
      lifecycle v tr w rid = w\<lparr>requests := (requests w)(rid \<mapsto> Settled (RejectedMessage r))\<rparr>"
    if a: "requests w rid = Some (InFlight c) \<and> cancelledWith w c = Some r"
  proof -
    have ab: "abort v w rid = w\<lparr>requests := (requests w)(rid \<mapsto> Settled (RejectedMessage r))\<rparr>"
      using a by (simp add: abort_def deliver_def onRejected_def)
    show ?thesis
      using a ab lifecycle_InFlight_cancelled[of w rid c r v tr]
        lifecycle_Settled[of "abort v w rid" rid "RejectedMessage r" v tr]
      by (simp add: respond_def)
  qed
  have ready: "dispatch v w rid = w\<lparr>requests := (requests w)(rid \<mapsto> Settled (RejectedMessage r))\<rparr>"
    if "requests w rid = Some (Ready c) \<and> cancelledWith w c = Some r"
    using that by (simp add: dispatch_def deliver_def onRejected_def)
  have reason: "tokenReason (removeReq v w c') t =
        Some (CancelReason ERROR_TYPE_Cancel ''Request canceled '')"
    if "cancelDuplicated c' \<and> requestMap w (getDuplicatedKey v c') = Some t \<and>
      tokenReason w t = None"
    using that by (simp add: removeReq_def cancel_def Let_def)
  show ?thesis
    using handler flight ready reason by blast
qed

theorem C7_cancel_not_retried_witness:
  "lifecycle JS (\<lambda>c. Inl ''boom'') superseded 0 =
     superseded\<lparr>requests := (requests superseded)
       (0 \<mapsto> Settled (RejectedMessage (CancelReason ''cancelDuplicated'' ''Request canceled '')))\<rparr> \<and>
   respond JS superseded 0 (Inl ''boom'') = superseded"
  using C7_cancel_not_retried [of JS superseded
      "CancelReason ''cancelDuplicated'' ''Request canceled ''" 0
      "exampleConfig\<lparr>cancelDuplicated := True, retry := 3, cancelToken := Some 0\<rparr>"
      "Inl ''boom''" "\<lambda>c. Inl ''boom''"]
  by (simp add: superseded_eval initial_def cancelledWith_def)

section \<open>The registry (C8)\<close>

text \<open>
  C8: the registry is a map, so a key has at most one cancel function at any time.
  \<open>addReq\<close> never replaces an entry: every entry that exists is kept, and when the
  key of the configuration has one nothing changes at all. With \<open>cancelDuplicated\<close>,
  \<open>removeReq\<close> leaves no entry under the key, and the request interceptor, which
  calls \<open>removeReq\<close> before \<open>addReq\<close>, ends with the new token under the key and
  every other entry as before; without the flag it changes nothing.
\<close>

theorem C8_registry:
  "(\<forall>k t. requestMap w k = Some t \<longrightarrow> requestMap (fst (addReq v w c)) k = Some t) \<and>
   (requestMap w (getDuplicatedKey v c) \<noteq> None \<longrightarrow> addReq v w c = (w, c)) \<and>
   (cancelDuplicated c \<longrightarrow> requestMap (removeReq v w c) (getDuplicatedKey v c) = None) \<and>
   (cancelDuplicated c \<longrightarrow>
      requestMap (fst (interceptorsRequest v w c)) =
        (requestMap w)(getDuplicatedKey v c \<mapsto> nextToken w)) \<and>
   (\<not> cancelDuplicated c \<longrightarrow> interceptorsRequest v w c = (w, c))"
  by (auto simp: addReq_def removeReq_def interceptorsRequest_def Let_def split: option.splits)

theorem C8_registry_witness:
  "addReq JS superseded (exampleConfig\<lparr>cancelDuplicated := True\<rparr>) =
     (superseded, exampleConfig\<lparr>cancelDuplicated := True\<rparr>) \<and>
   requestMap (removeReq JS superseded (exampleConfig\<lparr>cancelDuplicated := True\<rparr>)) ''get/a'' = None \<and>
   requestMap (fst (interceptorsRequest JS superseded (exampleConfig\<lparr>cancelDuplicated := True\<rparr>))) =
     [''get/a'' \<mapsto> 2] \<and>
   interceptorsRequest JS superseded exampleConfig = (superseded, exampleConfig)"
  using C8_registry [of superseded JS "exampleConfig\<lparr>cancelDuplicated := True\<rparr>"]
    C8_registry [of superseded JS exampleConfig]
  by (simp add: superseded_eval initial_def exampleConfig_def getDuplicatedKey_def
      getDuplicatedKey_js_def toLocaleLowerCase_GET)

section \<open>The cache flag (C9)\<close>

text \<open>
  C9: \<open>setResponseCache\<close> changes nothing for a configuration with \<open>cache\<close> off
  and stores the response under the key of a configuration with \<open>cache\<close> on. A
  request whose merged configuration has \<open>cache\<close> off is queued whatever the cache
  holds (it is not looked up), and from there to the end of the call, against any
  transport, the cache stays as it was.
\<close>

theorem C9_cache_flag:
  "(\<not> cache c \<longrightarrow> setResponseCache v w c r = w) \<and>
   (cache c \<longrightarrow>
      responseCacheMap (setResponseCache v w c r) = (responseCacheMap w)(getDuplicatedKey v c \<mapsto> r)) \<and>
   (\<not> cache (assign (defaultConfig v) opts) \<longrightarrow>
      request v w opts =
        w\<lparr>nextRequest := Suc (nextRequest w),
          requests := (requests w)(nextRequest w \<mapsto> Queued (assign (defaultConfig v) opts))\<rparr> \<and>
      responseCacheMap (lifecycle v tr (request v w opts) (nextRequest w)) = responseCacheMap w)"
proof (intro conjI impI)
  assume off: "\<not> cache (assign (defaultConfig v) opts)"
  then show q: "request v w opts =
        w\<lparr>nextRequest := Suc (nextRequest w),
          requests := (requests w)(nextRequest w \<mapsto> Queued (assign (defaultConfig v) opts))\<rparr>"
    by (simp add: request_def Let_def)
  show "responseCacheMap (lifecycle v tr (request v w opts) (nextRequest w)) = responseCacheMap w"
    using lifecycle_cacheOff[of "request v w opts" "nextRequest w" v tr] off q by simp
qed (simp_all add: setResponseCache_def)

theorem C9_cache_flag_witness:
  "responseCacheMap firstCall ''get/a'' = Some (Response ''data'' (exampleConfig\<lparr>cache := True\<rparr>)) \<and>
   setResponseCache JS firstCall exampleConfig (Response ''other'' exampleConfig) = firstCall \<and>
   request JS firstCall exampleOptions =
     firstCall\<lparr>nextRequest := Suc (nextRequest firstCall),
       requests := (requests firstCall)
         (nextRequest firstCall \<mapsto> Queued (assign (defaultConfig JS) exampleOptions))\<rparr> \<and>
   responseCacheMap (lifecycle JS (\<lambda>c. Inr ''other'') (request JS firstCall exampleOptions)
       (nextRequest firstCall)) =
     responseCacheMap firstCall"
proof -
  have off: "\<not> cache exampleConfig" "\<not> cache (assign (defaultConfig JS) exampleOptions)"
    by (simp_all add: exampleConfig_def exampleOptions_def assign_def defaultConfig_def)
  have "responseCacheMap firstCall ''get/a'' =
      Some (Response ''data'' (exampleConfig\<lparr>cache := True\<rparr>))"
    by (simp add: firstCall_eval)
  then show ?thesis
    using off C9_cache_flag [of exampleConfig JS firstCall "Response ''other'' exampleConfig"
      exampleOptions "\<lambda>c. Inr ''other''"]
    by blast
qed

section \<open>The timeout of the last retry (C10)\<close>

text \<open>
  C10: in index.js a retry that is not exhausted re-issues the descriptor with its
  counter raised by one, and with the timeout 15000 exactly when the raised counter
  equals \<open>retry\<close>; every other retry keeps the timeout, and so does the rejection of
  an exhausted retry. index.ts never writes the timeout.
\<close>

theorem C10_final_retry_timeout:
  "(counter c < retry c \<longrightarrow>
      (\<exists>d c'. MAxios_retry JS c e = Reissue d c' \<and>
         retryCount c' = Some (counter c + 1) \<and>
         timeout c' = (if counter c + 1 = retry c then 15000 else timeout c))) \<and>
   (retry c \<le> counter c \<longrightarrow>
      (\<exists>c'. MAxios_retry JS c (AxiosError m (Some c)) = Reject (AxiosError m (Some c')) \<and>
         timeout c' = timeout c)) \<and>
   (\<forall>d c'. MAxios_retry TS c e = Reissue d c' \<longrightarrow> timeout c' = timeout c)"
  by (auto simp: MAxios_retry_def Let_def split: if_splits)

theorem C10_final_retry_timeout_witness:
  "(\<exists>d c'. MAxios_retry JS (exampleConfig\<lparr>retry := 2, retryCount := Some 1\<rparr>)
       (AxiosError ''boom'' None) = Reissue d c' \<and>
       retryCount c' = Some 2 \<and> timeout c' = 15000) \<and>
   (\<exists>d c'. MAxios_retry JS (exampleConfig\<lparr>retry := 2\<rparr>)
       (AxiosError ''boom'' None) = Reissue d c' \<and>
       retryCount c' = Some 1 \<and> timeout c' = -1)"
  using C10_final_retry_timeout [of "exampleConfig\<lparr>retry := 2, retryCount := Some 1\<rparr>"
      "AxiosError ''boom'' None" "''boom''"]
    C10_final_retry_timeout [of "exampleConfig\<lparr>retry := 2\<rparr>" "AxiosError ''boom'' None" "''boom''"]
  by (simp add: exampleConfig_def counter_def)

end
